theory Spec2Isabelle
  imports Main "HOL-Library.Word" "HOL-Library.Multiset"
begin

section \<open>sloc.go: counting blank, comment and code lines of Go files\<close>

subsection \<open>Data model\<close>

text \<open>
  Go's \<^verbatim>\<open>int\<close> is a 64-bit two's complement integer on the usual platforms:
  \<^verbatim>\<open>++\<close> and \<^verbatim>\<open>+=\<close> wrap around silently. A Go \<^verbatim>\<open>string\<close> is a
  sequence of bytes, as \<^typ>\<open>string\<close> is here.
\<close>

type_synonym goint = "64 word"

text \<open>\<^verbatim>\<open>type fileLines struct\<close> (sloc.go, lines 21-26).\<close>

record fileLines =
  filename :: string
  codeLines :: goint
  commentLines :: goint
  whitespaceLines :: goint

text \<open>
  Values of Go's \<^verbatim>\<open>error\<close> interface that the program can meet: errors of the operating
  system, the scanner's \<^verbatim>\<open>bufio.ErrTooLong\<close>, and the control value
  \<^verbatim>\<open>filepath.SkipDir\<close>.
\<close>

datatype error = ENOENT | EACCES | EISDIR | EIO | ErrTooLong | SkipDir

text \<open>
  \<^verbatim>\<open>log.Fatal(err)\<close> logs \<^verbatim>\<open>err\<close> at level CRITICAL and calls \<^verbatim>\<open>os.Exit(1)\<close>: the
  function that calls it never returns to its caller.
\<close>

datatype 'a outcome = Fatal error | Return 'a

subsection \<open>The standard library's string functions\<close>

text \<open>
  \<^verbatim>\<open>strings.HasPrefix(s, prefix)\<close> is
  \<^verbatim>\<open>len(s) >= len(prefix) && s[0:len(prefix)] == prefix\<close> and
  \<^verbatim>\<open>strings.HasSuffix(s, suffix)\<close> is
  \<^verbatim>\<open>len(s) >= len(suffix) && s[len(s)-len(suffix):] == suffix\<close>.
\<close>

definition HasPrefix :: "string \<Rightarrow> string \<Rightarrow> bool" where
  "HasPrefix s p = (length s \<ge> length p \<and> take (length p) s = p)"

definition HasSuffix :: "string \<Rightarrow> string \<Rightarrow> bool" where
  "HasSuffix s x = (length s \<ge> length x \<and> drop (length s - length x) s = x)"

text \<open>
  \<^verbatim>\<open>strings.TrimSpace\<close> removes all leading and trailing white space, as defined by
  Unicode (\<^verbatim>\<open>unicode.IsSpace\<close>): the six ASCII characters tab, line feed, vertical tab,
  form feed, carriage return and space, and the code points U+0085, U+00A0, U+1680,
  U+2000 to U+200A, U+2028, U+2029, U+202F, U+205F and U+3000, which are read from
  their UTF-8 encodings. A byte that starts no valid encoding decodes to U+FFFD, which
  is not white space.
\<close>

definition asciiSpace :: "char \<Rightarrow> bool" where
  "asciiSpace c = (c \<in> set [CHR 0x09, CHR 0x0A, CHR 0x0B, CHR 0x0C, CHR 0x0D, CHR 0x20])"

definition unicodeSpaces :: "string list" where
  "unicodeSpaces =
    [[CHR 0xC2, CHR 0x85], [CHR 0xC2, CHR 0xA0], [CHR 0xE1, CHR 0x9A, CHR 0x80],
     [CHR 0xE2, CHR 0x80, CHR 0x80], [CHR 0xE2, CHR 0x80, CHR 0x81],
     [CHR 0xE2, CHR 0x80, CHR 0x82], [CHR 0xE2, CHR 0x80, CHR 0x83],
     [CHR 0xE2, CHR 0x80, CHR 0x84], [CHR 0xE2, CHR 0x80, CHR 0x85],
     [CHR 0xE2, CHR 0x80, CHR 0x86], [CHR 0xE2, CHR 0x80, CHR 0x87],
     [CHR 0xE2, CHR 0x80, CHR 0x88], [CHR 0xE2, CHR 0x80, CHR 0x89],
     [CHR 0xE2, CHR 0x80, CHR 0x8A], [CHR 0xE2, CHR 0x80, CHR 0xA8],
     [CHR 0xE2, CHR 0x80, CHR 0xA9], [CHR 0xE2, CHR 0x80, CHR 0xAF],
     [CHR 0xE2, CHR 0x81, CHR 0x9F], [CHR 0xE3, CHR 0x80, CHR 0x80]]"

text \<open>The width in bytes of the white-space code point that \<open>s\<close> starts with, 0 if none.\<close>

definition leadingSpace :: "string \<Rightarrow> nat" where
  "leadingSpace s =
     (case s of
        [] \<Rightarrow> 0
      | c # _ \<Rightarrow>
          if asciiSpace c then 1
          else (case find (HasPrefix s) unicodeSpaces of Some e \<Rightarrow> length e | None \<Rightarrow> 0))"

text \<open>The width in bytes of the white-space code point that \<open>s\<close> ends with, 0 if none.\<close>

definition trailingSpace :: "string \<Rightarrow> nat" where
  "trailingSpace s =
     (if s = [] then 0
      else if asciiSpace (last s) then 1
      else (case find (HasSuffix s) unicodeSpaces of Some e \<Rightarrow> length e | None \<Rightarrow> 0))"

lemma leadingSpace_le: "leadingSpace s \<le> length s"
  by (auto simp: leadingSpace_def HasPrefix_def find_Some_iff
           split: list.splits option.splits)

lemma trailingSpace_le: "trailingSpace s \<le> length s"
  by (cases s) (auto simp: trailingSpace_def HasSuffix_def find_Some_iff
           split: option.splits)

function TrimLeft :: "string \<Rightarrow> string" where
  "TrimLeft s = (if leadingSpace s = 0 then s else TrimLeft (drop (leadingSpace s) s))"
  by pat_completeness auto
termination
proof (relation "measure length")
  fix s :: string
  assume "leadingSpace s \<noteq> 0"
  moreover have "leadingSpace s \<le> length s" by (rule leadingSpace_le)
  ultimately show "(drop (leadingSpace s) s, s) \<in> measure length" by simp
qed simp

function TrimRight :: "string \<Rightarrow> string" where
  "TrimRight s =
     (if trailingSpace s = 0 then s else TrimRight (take (length s - trailingSpace s) s))"
  by pat_completeness auto
termination
proof (relation "measure length")
  fix s :: string
  assume "trailingSpace s \<noteq> 0"
  moreover have "trailingSpace s \<le> length s" by (rule trailingSpace_le)
  ultimately show "(take (length s - trailingSpace s) s, s) \<in> measure length" by simp
qed simp

declare TrimLeft.simps [simp del] TrimRight.simps [simp del]

definition TrimSpace :: "string \<Rightarrow> string" where
  "TrimSpace s = TrimRight (TrimLeft s)"

subsection \<open>getFileStats (sloc.go, lines 42-81)\<close>

text \<open>
  The body of the scanning loop after the check of \<^verbatim>\<open>scanner.Err()\<close> (lines 60-77):
  the line is trimmed, then exactly one branch of the \<^verbatim>\<open>if\<close>/\<^verbatim>\<open>else if\<close> chain runs,
  in the order of the source. The state of the loop is the record \<^verbatim>\<open>res\<close> and the
  flag \<^verbatim>\<open>inComment\<close>.
\<close>

fun countLine :: "string \<Rightarrow> fileLines \<times> bool \<Rightarrow> fileLines \<times> bool" where
  "countLine text (res, inComment) =
     (let line = TrimSpace text in
      if length line = 0 then
        (res\<lparr>whitespaceLines := whitespaceLines res + 1\<rparr>, inComment)
      else if HasPrefix line ''//'' then
        (res\<lparr>commentLines := commentLines res + 1\<rparr>, inComment)
      else if HasPrefix line ''/*'' then
        (res\<lparr>commentLines := commentLines res + 1\<rparr>,
         if \<not> HasSuffix line ''*/'' then True else inComment)
      else if inComment then
        (res\<lparr>commentLines := commentLines res + 1\<rparr>,
         if HasSuffix line ''*/'' then False else inComment)
      else
        (res\<lparr>codeLines := codeLines res + 1\<rparr>, inComment))"

declare countLine.simps [simp del]

text \<open>
  What \<^verbatim>\<open>bufio.Scanner\<close> delivers for an opened file: for each call of \<^verbatim>\<open>Scan()\<close> that
  returns true, the line \<^verbatim>\<open>Text()\<close> and the value of \<^verbatim>\<open>Err()\<close> right after it; and
  the value of \<^verbatim>\<open>Err()\<close> once \<^verbatim>\<open>Scan()\<close> has returned false (nil at the end of the
  input, the error otherwise: a failed read, or \<^verbatim>\<open>ErrTooLong\<close> for a line longer than
  the scanner's buffer of 64 KiB).
\<close>

record scanner =
  scans :: "(string \<times> error option) list"
  finalErr :: "error option"

text \<open>\<^verbatim>\<open>os.Open\<close> of the environment: an error, or the file as the scanner will read it.\<close>

type_synonym opener = "string \<Rightarrow> error + scanner"

text \<open>
  The loop \<^verbatim>\<open>for scanner.Scan() { ... }\<close>: it ends when \<^verbatim>\<open>Scan()\<close> returns false, and
  the source does not look at \<^verbatim>\<open>scanner.Err()\<close> after the loop.
\<close>

fun scanLoop :: "(string \<times> error option) list \<Rightarrow> fileLines \<times> bool \<Rightarrow> (fileLines \<times> bool) outcome" where
  "scanLoop [] st = Return st"
| "scanLoop ((text, err) # rest) st =
     (case err of
        Some e \<Rightarrow> Fatal e
      | None \<Rightarrow> scanLoop rest (countLine text st))"

definition getFileStats :: "opener \<Rightarrow> string \<Rightarrow> fileLines outcome" where
  "getFileStats os_Open fname =
     (case os_Open fname of
        Inl err \<Rightarrow> Fatal err
      | Inr file \<Rightarrow>
          (case scanLoop (scans file)
                  (\<lparr>filename = fname, codeLines = 0, commentLines = 0, whitespaceLines = 0\<rparr>, False) of
             Fatal e \<Rightarrow> Fatal e
           | Return (res, inComment) \<Rightarrow> Return res))"

subsection \<open>The process: the log, the channel, and exiting\<close>

text \<open>
  A call of the logger is recorded with its level and its arguments, whatever the
  configured level lets through.
\<close>

datatype level = CRITICAL | ERROR | WARNING | NOTICE | INFO | DEBUG

datatype arg = S string | E error | R fileLines

type_synonym entry = "level \<times> arg list"

text \<open>
  What the main goroutine has done so far: the values it has sent on the channel
  \<^verbatim>\<open>results\<close>, in the order of sending, and its calls of the logger.
\<close>

record world =
  results :: "fileLines list"
  logged :: "entry list"

definition logf :: "level \<Rightarrow> arg list \<Rightarrow> world \<Rightarrow> world" where
  "logf l as w = w\<lparr>logged := logged w @ [(l, as)]\<rparr>"

definition send :: "fileLines \<Rightarrow> world \<Rightarrow> world" where
  "send r w = w\<lparr>results := results w @ [r]\<rparr>"

text \<open>
  A step of the main goroutine either returns a value, or ends the process through
  \<^verbatim>\<open>log.Fatal\<close> (\<open>Exit\<close>): nothing runs after that, and the table, which
  \<^verbatim>\<open>processResults\<close> prints only once the channel is closed, is never printed.
\<close>

datatype 'a run = Exit world | Ret 'a world

subsection \<open>genFileProcessor (sloc.go, lines 83-100)\<close>

text \<open>\<^verbatim>\<open>os.FileInfo\<close>: the walk reads \<^verbatim>\<open>IsDir()\<close> only, the program reads nothing of it.\<close>

datatype fileinfo = FileInfo (IsDir: bool)

type_synonym walkFunc = "string \<Rightarrow> fileinfo option \<Rightarrow> error option \<Rightarrow> world \<Rightarrow> error option run"

text \<open>
  The function that \<^verbatim>\<open>genFileProcessor(out)\<close> returns; \<^verbatim>\<open>out\<close> is the channel of the
  world. The returned \<^verbatim>\<open>error\<close> is \<open>None\<close> for nil.
\<close>

definition genFileProcessor :: "opener \<Rightarrow> walkFunc" where
  "genFileProcessor os_Open path info err w =
     (if \<not> HasSuffix path ''.go'' then
        Ret None (logf DEBUG [S ''ignoring'', S path] w)
      else
        (case err of
           Some e \<Rightarrow> Ret None (logf ERROR [E e] w)
         | None \<Rightarrow>
             (let w1 = logf DEBUG [S ''fileProcessor'', S path] w in
              case getFileStats os_Open path of
                Fatal e \<Rightarrow> Exit (logf CRITICAL [E e] w1)
              | Return r \<Rightarrow> Ret None (send r w1))))"

subsection \<open>filepath.Walk of the standard library\<close>

text \<open>
  What the walk finds at a path: \<^verbatim>\<open>os.Lstat\<close> fails (\<open>NoEntry\<close>); a file that is not a
  directory; a directory whose names cannot be read; or a directory with its entries in
  lexical order, each with the path \<^verbatim>\<open>Join(path, name)\<close> that the walk passes on.
\<close>

datatype tree =
    NoEntry error
  | File
  | UnreadableDir error
  | Dir "(string \<times> tree) list"

fun isDir :: "tree \<Rightarrow> bool" where
  "isDir (Dir _) = True"
| "isDir (UnreadableDir _) = True"
| "isDir _ = False"

text \<open>
  The walk is not code of this program: the model follows the implementation in the
  current standard library, which calls the function once for every file and directory.
  \<^verbatim>\<open>walk\<close> calls the function on a file; on a directory it reads the names, calls the
  function with the directory and the error of the reading, returns what the function
  returned if either is not nil, and otherwise visits the entries: an entry whose
  \<^verbatim>\<open>Lstat\<close> fails is passed to the function with the error; an error that comes
  back ends the walk, except \<^verbatim>\<open>SkipDir\<close> (from the function on a failed entry, or
  from the walk of a directory).
\<close>

fun walk :: "walkFunc \<Rightarrow> string \<Rightarrow> tree \<Rightarrow> world \<Rightarrow> error option run"
  and walkEntries :: "walkFunc \<Rightarrow> (string \<times> tree) list \<Rightarrow> world \<Rightarrow> error option run" where
  "walk walkFn path (NoEntry e) w = walkFn path None (Some e) w"
| "walk walkFn path File w = walkFn path (Some (FileInfo False)) None w"
| "walk walkFn path (UnreadableDir e) w = walkFn path (Some (FileInfo True)) (Some e) w"
| "walk walkFn path (Dir entries) w =
     (case walkFn path (Some (FileInfo True)) None w of
        Exit w' \<Rightarrow> Exit w'
      | Ret err1 w' \<Rightarrow> if err1 \<noteq> None then Ret err1 w' else walkEntries walkFn entries w')"
| "walkEntries walkFn [] w = Ret None w"
| "walkEntries walkFn ((fname, t) # rest) w =
     (case t of
        NoEntry e \<Rightarrow>
          (case walkFn fname None (Some e) w of
             Exit w' \<Rightarrow> Exit w'
           | Ret err w' \<Rightarrow>
               if err \<noteq> None \<and> err \<noteq> Some SkipDir then Ret err w'
               else walkEntries walkFn rest w')
      | _ \<Rightarrow>
          (case walk walkFn fname t w of
             Exit w' \<Rightarrow> Exit w'
           | Ret err w' \<Rightarrow>
               if err \<noteq> None \<and> (\<not> isDir t \<or> err \<noteq> Some SkipDir) then Ret err w'
               else walkEntries walkFn rest w'))"

text \<open>
  \<^verbatim>\<open>filepath.Walk(root, fn)\<close>: when \<^verbatim>\<open>os.Lstat(root)\<close> fails, the function is called
  with \<^verbatim>\<open>root\<close>, a nil \<^verbatim>\<open>info\<close> and the error; \<^verbatim>\<open>SkipDir\<close> at the top is nil.
\<close>

definition Walk :: "(string \<Rightarrow> tree) \<Rightarrow> string \<Rightarrow> walkFunc \<Rightarrow> world \<Rightarrow> error option run" where
  "Walk lstat root fn w =
     (case (case lstat root of
              NoEntry e \<Rightarrow> fn root None (Some e) w
            | t \<Rightarrow> walk fn root t w) of
        Exit w' \<Rightarrow> Exit w'
      | Ret err w' \<Rightarrow> if err = Some SkipDir then Ret None w' else Ret err w')"

subsection \<open>join and processResults (sloc.go, lines 28-32 and 102-133)\<close>

definition join :: "fileLines \<Rightarrow> fileLines \<Rightarrow> fileLines" where
  "join this f =
     this\<lparr>codeLines := codeLines this + codeLines f,
          commentLines := commentLines this + commentLines f,
          whitespaceLines := whitespaceLines this + whitespaceLines f\<rparr>"

text \<open>\<^verbatim>\<open>strconv.Itoa\<close>: the decimal digits of a signed integer.\<close>

fun digits :: "nat \<Rightarrow> string" where
  "digits n =
     (if n < 10 then [char_of (48 + n)]
      else digits (n div 10) @ [char_of (48 + n mod 10)])"

declare digits.simps [simp del]

definition Itoa :: "goint \<Rightarrow> string" where
  "Itoa i =
     (if sint i < 0 then CHR ''-'' # digits (nat (- sint i)) else digits (nat (sint i)))"

text \<open>The row of the table that \<^verbatim>\<open>processResults\<close> appends for a record (lines 110-115).\<close>

definition row :: "fileLines \<Rightarrow> string list" where
  "row res =
     [filename res, Itoa (whitespaceLines res), Itoa (commentLines res), Itoa (codeLines res)]"

text \<open>
  The loop \<^verbatim>\<open>for res := range results\<close> over the values received from the channel,
  in the order of their arrival; its state is \<^verbatim>\<open>total\<close> (here \<open>tot\<close>), \<^verbatim>\<open>data\<close>
  and the calls of the logger.
\<close>

fun rangeResults ::
  "fileLines list \<Rightarrow> fileLines \<times> string list list \<times> entry list \<Rightarrow>
   fileLines \<times> string list list \<times> entry list" where
  "rangeResults [] st = st"
| "rangeResults (res # rest) (tot, data, lg) =
     rangeResults rest
       (join tot res, data @ [row res], lg @ [(INFO, [S ''%+v\<newline>'', R res])])"

text \<open>The table handed to \<^verbatim>\<open>tablewriter\<close>, which renders it on the standard output.\<close>

record table =
  header :: "string list"
  footer :: "string list"
  rows :: "string list list"

definition processResults :: "fileLines list \<Rightarrow> table \<times> entry list" where
  "processResults received =
     (case rangeResults received
             (\<lparr>filename = ''TOTAL'', codeLines = 0, commentLines = 0, whitespaceLines = 0\<rparr>,
              [], []) of
        (tot, data, lg) \<Rightarrow>
          (\<lparr>header = [''FILENAME'', ''White Space'', ''Comment'', ''Code''],
            footer = [filename tot, Itoa (whitespaceLines tot),
                      Itoa (commentLines tot), Itoa (codeLines tot)],
            rows = data\<rparr>, lg))"

subsection \<open>main (sloc.go, lines 135-186)\<close>

definition loggingLevels :: "string \<rightharpoonup> level" where
  "loggingLevels =
     [''CRITICAL'' \<mapsto> CRITICAL, ''DEBUG'' \<mapsto> DEBUG, ''ERROR'' \<mapsto> ERROR,
      ''INFO'' \<mapsto> INFO, ''NOTICE'' \<mapsto> NOTICE, ''WARNING'' \<mapsto> WARNING]"

text \<open>The environment of the process: what lies at each path, and \<^verbatim>\<open>os.Open\<close>.\<close>

record filesystem =
  lstat :: "string \<Rightarrow> tree"
  openFile :: opener

text \<open>The loop over the command line's paths (lines 175-181).\<close>

fun walkFiles :: "filesystem \<Rightarrow> string list \<Rightarrow> world \<Rightarrow> unit run" where
  "walkFiles fs [] w = Ret () w"
| "walkFiles fs (file # rest) w =
     (case Walk (lstat fs) file (genFileProcessor (openFile fs))
             (logf DEBUG [S ''processing'', S file] w) of
        Exit w' \<Rightarrow> Exit w'
      | Ret (Some err) w' \<Rightarrow> Exit (logf CRITICAL [E err] w')
      | Ret None w' \<Rightarrow> walkFiles fs rest w')"

text \<open>
  \<^verbatim>\<open>main\<close>, from the value of the flag \<^verbatim>\<open>-loglevel\<close>, the other arguments and the
  file system. When the loop over the paths is done the channel is closed,
  \<^verbatim>\<open>processResults\<close> has received every value sent, prints the table and signals
  \<^verbatim>\<open>done\<close>. The result is the table and the log of \<^verbatim>\<open>processResults\<close>. The
  line that \<^verbatim>\<open>main\<close> prints about the level, and the configuration of the logger's
  backend, have no part in it.
\<close>

definition main :: "string \<Rightarrow> string list \<Rightarrow> filesystem \<Rightarrow> (table \<times> entry list) run" where
  "main loggingFlag files fs =
     (case loggingLevels loggingFlag of
        None \<Rightarrow> Exit \<lparr>results = [], logged = [(CRITICAL, [S ''Invalid log level: found %v''])]\<rparr>
      | Some loggingLevel \<Rightarrow>
          (case walkFiles fs files
                  \<lparr>results = [],
                   logged = [(NOTICE, [S ''notice'']), (WARNING, [S ''warning'']),
                             (ERROR, [S ''err'']), (CRITICAL, [S ''crit''])]\<rparr> of
             Exit w \<Rightarrow> Exit w
           | Ret u w \<Rightarrow> Ret (processResults (results w)) w))"

subsection \<open>The calls that a walk makes\<close>

text \<open>
  The paths that \<^verbatim>\<open>filepath.Walk\<close> passes to a function that always returns nil, in
  the order of the calls, each with the error it is passed with (\<open>None\<close> for nil).
\<close>

fun visits :: "string \<Rightarrow> tree \<Rightarrow> (string \<times> error option) list"
  and visitsEntries :: "(string \<times> tree) list \<Rightarrow> (string \<times> error option) list" where
  "visits path (NoEntry e) = [(path, Some e)]"
| "visits path File = [(path, None)]"
| "visits path (UnreadableDir e) = [(path, Some e)]"
| "visits path (Dir entries) = (path, None) # visitsEntries entries"
| "visitsEntries [] = []"
| "visitsEntries ((fname, t) # rest) = visits fname t @ visitsEntries rest"

text \<open>The visited paths that come without an error and end with \<^verbatim>\<open>.go\<close>.\<close>

definition goFiles :: "(string \<times> error option) list \<Rightarrow> string list" where
  "goFiles vs = map fst (filter (\<lambda>v. snd v = None \<and> HasSuffix (fst v) ''.go'') vs)"

text \<open>The entry that the file processor logs for a visit when it returns.\<close>

definition trace :: "string \<times> error option \<Rightarrow> entry" where
  "trace v =
     (if \<not> HasSuffix (fst v) ''.go'' then (DEBUG, [S ''ignoring'', S (fst v)])
      else (case snd v of
              Some e \<Rightarrow> (ERROR, [E e])
            | None \<Rightarrow> (DEBUG, [S ''fileProcessor'', S (fst v)])))"

text \<open>The file processor called on each visit in turn, until one ends the process.\<close>

fun processAll :: "opener \<Rightarrow> (string \<times> error option) list \<Rightarrow> world \<Rightarrow> error option run" where
  "processAll opn [] w = Ret None w"
| "processAll opn ((p, err) # vs) w =
     (case genFileProcessor opn p None err w of
        Exit w' \<Rightarrow> Exit w'
      | Ret x w' \<Rightarrow> processAll opn vs w')"

subsection \<open>Sample inputs\<close>

text \<open>
  A file of six lines: two of code, one blank, and a block comment over three lines.
\<close>

definition sampleFile :: scanner where
  "sampleFile =
     \<lparr>scans = [(''package main'', None), ([], None), (''/* start'', None),
               (''  middle'', None), (''end */'', None), (''x := 1 // trailing'', None)],
      finalErr = None\<rparr>"

text \<open>
  A file whose second line is longer than the scanner's buffer: the first \<^verbatim>\<open>Scan()\<close>
  returns the first line, the second returns false, and \<^verbatim>\<open>Err()\<close> is
  \<^verbatim>\<open>ErrTooLong\<close> from then on.
\<close>

definition longLineFile :: scanner where
  "longLineFile = \<lparr>scans = [(''package main'', None)], finalErr = Some ErrTooLong\<rparr>"

text \<open>Three lines of code and a blank one; and a block comment of two lines.\<close>

definition codeFile :: scanner where
  "codeFile =
     \<lparr>scans = [(''package main'', None), ([], None), (''func main() {'', None), (''}'', None)],
      finalErr = None\<rparr>"

definition commentFile :: scanner where
  "commentFile = \<lparr>scans = [(''/* start'', None), (''end */'', None)], finalErr = None\<rparr>"

definition sampleOpen :: opener where
  "sampleOpen fname =
     (if fname = ''a.go'' then Inr sampleFile
      else if fname = ''big.go'' then Inr longLineFile
      else if fname = ''proj/a.go'' then Inr codeFile
      else if fname = ''proj/z.go'' then Inr commentFile
      else Inl ENOENT)"

text \<open>
  A directory \<^verbatim>\<open>proj\<close> with two Go files, a subdirectory that cannot be read and a
  text file; no other path exists.
\<close>

definition sampleFS :: filesystem where
  "sampleFS =
     \<lparr>lstat = (\<lambda>p. if p = ''proj''
                    then Dir [(''proj/a.go'', File), (''proj/locked'', UnreadableDir EACCES),
                              (''proj/readme.txt'', File), (''proj/z.go'', File)]
                    else NoEntry ENOENT),
      openFile = sampleOpen\<rparr>"

definition sampleRecord :: fileLines where
  "sampleRecord = \<lparr>filename = ''a.go'', codeLines = 3, commentLines = 0, whitespaceLines = 1\<rparr>"


section \<open>Properties of getFileStats\<close>

subsection \<open>Every line read is counted once\<close>

lemma countLine_one_counter:
  "fst (countLine text (res, ic)) = res\<lparr>whitespaceLines := whitespaceLines res + 1\<rparr> \<or>
   fst (countLine text (res, ic)) = res\<lparr>commentLines := commentLines res + 1\<rparr> \<or>
   fst (countLine text (res, ic)) = res\<lparr>codeLines := codeLines res + 1\<rparr>"
  by (simp add: countLine.simps Let_def)

lemma scanLoop_counts:
  "scanLoop ls (res, ic) = Return (res', ic') \<Longrightarrow>
   \<exists>a b c. a + b + c = length ls \<and>
     codeLines res' = codeLines res + of_nat a \<and>
     commentLines res' = commentLines res + of_nat b \<and>
     whitespaceLines res' = whitespaceLines res + of_nat c \<and>
     filename res' = filename res"
proof (induction ls arbitrary: res ic)
  case Nil
  then show ?case by simp
next
  case (Cons l ls)
  obtain ln err where l: "l = (ln, err)" by (cases l)
  obtain r1 ic1 where step: "countLine ln (res, ic) = (r1, ic1)"
    by (cases "countLine ln (res, ic)")
  from Cons.prems l step have rest: "scanLoop ls (r1, ic1) = Return (res', ic')"
    by (auto split: option.splits)
  from Cons.IH [OF rest] obtain a b c where abc: "a + b + c = length ls"
    "codeLines res' = codeLines r1 + of_nat a"
    "commentLines res' = commentLines r1 + of_nat b"
    "whitespaceLines res' = whitespaceLines r1 + of_nat c"
    "filename res' = filename r1" by blast
  from countLine_one_counter [of ln res ic] step
  consider "r1 = res\<lparr>whitespaceLines := whitespaceLines res + 1\<rparr>"
    | "r1 = res\<lparr>commentLines := commentLines res + 1\<rparr>"
    | "r1 = res\<lparr>codeLines := codeLines res + 1\<rparr>" by auto
  then show ?case
  proof cases
    case 1
    with abc show ?thesis
      by (intro exI [of _ a] exI [of _ b] exI [of _ "Suc c"]) simp
  next
    case 2
    with abc show ?thesis
      by (intro exI [of _ a] exI [of _ "Suc b"] exI [of _ c]) simp
  next
    case 3
    with abc show ?thesis
      by (intro exI [of _ "Suc a"] exI [of _ b] exI [of _ c]) simp
  qed
qed

lemma sint_of_nat_small: "n < 2 ^ 63 \<Longrightarrow> sint (of_nat n :: goint) = int n"
  by (simp add: signed_of_nat signed_take_bit_int_eq_self)

text \<open>
  C1: when \<^verbatim>\<open>getFileStats\<close> returns a record for a file, its three counters add up
  to the number of lines that the scanner delivered: as machine integers without any
  condition, and as signed numbers whenever the file has fewer than \<open>2 ^ 63\<close> lines.
\<close>

theorem getFileStats_counts_every_line:
  assumes opened: "opn fname = Inr file"
    and returned: "getFileStats opn fname = Return res"
  shows "codeLines res + commentLines res + whitespaceLines res = of_nat (length (scans file)) \<and>
         (length (scans file) < 2 ^ 63 \<longrightarrow>
            sint (codeLines res) + sint (commentLines res) + sint (whitespaceLines res)
              = int (length (scans file)))"
proof -
  let ?init = "\<lparr>filename = fname, codeLines = 0, commentLines = 0, whitespaceLines = 0\<rparr>"
  from opened returned obtain ic where "scanLoop (scans file) (?init, False) = Return (res, ic)"
    by (auto simp: getFileStats_def split: outcome.splits prod.splits)
  from scanLoop_counts [OF this] obtain a b c where abc: "a + b + c = length (scans file)"
    and code: "codeLines res = of_nat a" and comment: "commentLines res = of_nat b"
    and ws: "whitespaceLines res = of_nat c" by auto
  have words: "codeLines res + commentLines res + whitespaceLines res = of_nat (length (scans file))"
    unfolding code comment ws abc [symmetric] by simp
  have ints: "sint (codeLines res) + sint (commentLines res) + sint (whitespaceLines res)
              = int (length (scans file))" if "length (scans file) < 2 ^ 63"
  proof -
    from that abc have "a < 2 ^ 63" "b < 2 ^ 63" "c < 2 ^ 63" by simp_all
    then show ?thesis unfolding code comment ws abc [symmetric]
      by (simp add: sint_of_nat_small)
  qed
  from words ints show ?thesis by blast
qed

lemma getFileStats_sample:
  "getFileStats sampleOpen ''a.go'' =
     Return \<lparr>filename = ''a.go'', codeLines = 2, commentLines = 3, whitespaceLines = 1\<rparr>"
  by code_simp

theorem getFileStats_counts_every_line_witness:
  "sampleOpen ''a.go'' = Inr sampleFile \<and>
   getFileStats sampleOpen ''a.go'' =
     Return \<lparr>filename = ''a.go'', codeLines = 2, commentLines = 3, whitespaceLines = 1\<rparr> \<and>
   length (scans sampleFile) = 6 \<and>
   (2 :: goint) + 3 + 1 = of_nat 6 \<and>
   sint (2 :: goint) + sint (3 :: goint) + sint (1 :: goint) = int 6"
proof -
  have opened: "sampleOpen ''a.go'' = Inr sampleFile"
    by (simp add: sampleOpen_def)
  have len: "length (scans sampleFile) = 6"
    by (simp add: sampleFile_def)
  from getFileStats_counts_every_line [OF opened getFileStats_sample] opened len
  show ?thesis
    by (simp add: getFileStats_sample)
qed

text \<open>What holds of a scan that fails: the process exits, and no record is returned.\<close>

lemma getFileStats_open_fails: "opn fname = Inl e \<Longrightarrow> getFileStats opn fname = Fatal e"
  by (simp add: getFileStats_def)

lemma scanLoop_error_seen:
  "(ln, Some e) \<in> set ls \<Longrightarrow> \<exists>e'. scanLoop ls st = Fatal e'"
proof (induction ls arbitrary: st)
  case Nil
  then show ?case by simp
next
  case (Cons l ls)
  obtain ln' err where l: "l = (ln', err)" by (cases l)
  show ?case
  proof (cases err)
    case None
    with Cons l show ?thesis by auto
  next
    case (Some e'')
    with l show ?thesis by simp
  qed
qed

text \<open>
  C4: the scanner stops at a line longer than its buffer: \<^verbatim>\<open>Scan()\<close> returns false
  and only \<^verbatim>\<open>Err()\<close> tells this from the end of the file. The loop of
  \<^verbatim>\<open>getFileStats\<close> asks \<^verbatim>\<open>Err()\<close> after a successful \<^verbatim>\<open>Scan()\<close> only, so for the
  file \<open>longLineFile\<close> it returns the record of the lines before the long one and does
  not exit.
\<close>

theorem getFileStats_partial_record:
  "sampleOpen ''big.go'' = Inr longLineFile \<and>
   finalErr longLineFile = Some ErrTooLong \<and>
   getFileStats sampleOpen ''big.go'' =
     Return \<lparr>filename = ''big.go'', codeLines = 1, commentLines = 0, whitespaceLines = 0\<rparr>"
  by code_simp

subsection \<open>The classification of a line\<close>

lemma HasPrefix_nonempty: "HasPrefix s p \<Longrightarrow> p \<noteq> [] \<Longrightarrow> s \<noteq> []"
  by (auto simp: HasPrefix_def)

lemma HasPrefix_block_not_line: "HasPrefix s ''/*'' \<Longrightarrow> \<not> HasPrefix s ''//''"
  by (auto simp: HasPrefix_def)

text \<open>
  Inside a block comment the two prefix checks still come first in the chain: a line
  that starts with \<^verbatim>\<open>//\<close> or \<^verbatim>\<open>/*\<close> is counted as a comment and \<^verbatim>\<open>inComment\<close>
  stays set, whatever the line ends with.
\<close>

lemma countLine_prefixed_in_block_comment:
  assumes "HasPrefix (TrimSpace text) ''//'' \<or> HasPrefix (TrimSpace text) ''/*''"
  shows "countLine text (res, True) = (res\<lparr>commentLines := commentLines res + 1\<rparr>, True)"
  using assms HasPrefix_nonempty [of "TrimSpace text" "''//''"]
    HasPrefix_nonempty [of "TrimSpace text" "''/*''"]
  by (auto simp: countLine.simps Let_def)




text \<open>
  C6: outside a block comment, a trimmed line that starts with \<^verbatim>\<open>//\<close> is counted as a
  comment and \<^verbatim>\<open>inComment\<close> stays false, whatever else the line contains.
\<close>

theorem countLine_line_comment:
  assumes "HasPrefix (TrimSpace text) ''//''"
  shows "countLine text (res, False) = (res\<lparr>commentLines := commentLines res + 1\<rparr>, False)"
  using assms HasPrefix_nonempty [of "TrimSpace text" "''//''"]
  by (simp add: countLine.simps Let_def)

theorem countLine_line_comment_witness:
  "HasPrefix (TrimSpace ''// not /* a block comment */'') ''//'' \<and>
   countLine ''// not /* a block comment */'' (sampleRecord, False) =
     (\<lparr>filename = ''a.go'', codeLines = 3, commentLines = 1, whitespaceLines = 1\<rparr>, False)"
proof -
  have p: "HasPrefix (TrimSpace ''// not /* a block comment */'') ''//''"
    by code_simp
  from countLine_line_comment [OF p, of sampleRecord] p
  show ?thesis
    by (simp add: sampleRecord_def)
qed

text \<open>
  C7: outside a block comment, a trimmed line that starts with \<^verbatim>\<open>/*\<close> and ends with
  \<^verbatim>\<open>*/\<close> adds one to the comment counter only, and \<^verbatim>\<open>inComment\<close> stays false.
\<close>

theorem countLine_block_comment_on_one_line:
  assumes "HasPrefix (TrimSpace text) ''/*''" and "HasSuffix (TrimSpace text) ''*/''"
  shows "countLine text (res, False) = (res\<lparr>commentLines := commentLines res + 1\<rparr>, False)"
  using assms HasPrefix_nonempty [of "TrimSpace text" "''/*''"] HasPrefix_block_not_line
  by (simp add: countLine.simps Let_def)

theorem countLine_block_comment_on_one_line_witness:
  "HasPrefix (TrimSpace ''/* comment */'') ''/*'' \<and>
   HasSuffix (TrimSpace ''/* comment */'') ''*/'' \<and>
   countLine ''/* comment */'' (sampleRecord, False) =
     (\<lparr>filename = ''a.go'', codeLines = 3, commentLines = 1, whitespaceLines = 1\<rparr>, False)"
proof -
  have p: "HasPrefix (TrimSpace ''/* comment */'') ''/*''"
    by code_simp
  have q: "HasSuffix (TrimSpace ''/* comment */'') ''*/''"
    by code_simp
  from countLine_block_comment_on_one_line [OF p q, of sampleRecord] p q
  show ?thesis
    by (simp add: sampleRecord_def)
qed

text \<open>
  C10: outside a block comment, a non-empty trimmed line that starts with neither
  \<^verbatim>\<open>//\<close> nor \<^verbatim>\<open>/*\<close> is counted as code and \<^verbatim>\<open>inComment\<close> stays false, also when
  the line contains or ends with \<^verbatim>\<open>*/\<close>.
\<close>

theorem countLine_code:
  assumes "TrimSpace text \<noteq> []"
    and "\<not> HasPrefix (TrimSpace text) ''//''" and "\<not> HasPrefix (TrimSpace text) ''/*''"
  shows "countLine text (res, False) = (res\<lparr>codeLines := codeLines res + 1\<rparr>, False)"
  using assms by (simp add: countLine.simps Let_def)

theorem countLine_code_witness:
  "TrimSpace ''x := 1 */'' \<noteq> [] \<and> HasSuffix (TrimSpace ''x := 1 */'') ''*/'' \<and>
   \<not> HasPrefix (TrimSpace ''x := 1 */'') ''//'' \<and> \<not> HasPrefix (TrimSpace ''x := 1 */'') ''/*'' \<and>
   countLine ''x := 1 */'' (sampleRecord, False) =
     (\<lparr>filename = ''a.go'', codeLines = 4, commentLines = 0, whitespaceLines = 1\<rparr>, False)"
proof -
  have ne: "TrimSpace ''x := 1 */'' \<noteq> []"
    by code_simp
  have p: "\<not> HasPrefix (TrimSpace ''x := 1 */'') ''//''"
    by code_simp
  have q: "\<not> HasPrefix (TrimSpace ''x := 1 */'') ''/*''"
    by code_simp
  have s: "HasSuffix (TrimSpace ''x := 1 */'') ''*/''"
    by code_simp
  from countLine_code [OF ne p q, of sampleRecord] ne p q s
  show ?thesis
    by (simp add: sampleRecord_def)
qed

section \<open>Properties of the walk\<close>

lemma genFileProcessor_info:
  "genFileProcessor opn p (Some i) err w = genFileProcessor opn p None err w"
  by (simp add: genFileProcessor_def)

lemma genFileProcessor_nil: "genFileProcessor opn p info err w = Ret x w' \<Longrightarrow> x = None"
  by (auto simp: genFileProcessor_def Let_def split: if_splits option.splits outcome.splits)

lemma genFileProcessor_returns:
  assumes "genFileProcessor opn p info err w = Ret x w1"
  shows "logged w1 = logged w @ [trace (p, err)]"
    and "err = None \<and> HasSuffix p ''.go'' \<Longrightarrow>
           \<exists>r. getFileStats opn p = Return r \<and> results w1 = results w @ [r]"
    and "\<not> (err = None \<and> HasSuffix p ''.go'') \<Longrightarrow> results w1 = results w"
  using assms
  by (auto simp: genFileProcessor_def Let_def trace_def logf_def send_def
           split: if_splits option.splits outcome.splits)

lemma processAll_append:
  "processAll opn (us @ vs) w =
     (case processAll opn us w of Exit w' \<Rightarrow> Exit w' | Ret x w' \<Rightarrow> processAll opn vs w')"
  by (induction us arbitrary: w) (auto split: run.splits)

lemma processAll_nil: "processAll opn vs w = Ret x w' \<Longrightarrow> x = None"
  by (induction vs arbitrary: w) (auto split: run.splits)

text \<open>
  The file processor returns nil whenever it returns, so the walk never stops early: it
  makes all its calls, unless one of them ends the process.
\<close>

lemma walk_processAll:
  "walk (genFileProcessor opn) path t w = processAll opn (visits path t) w"
  "walkEntries (genFileProcessor opn) es w = processAll opn (visitsEntries es) w"
proof (induction "genFileProcessor opn" path t w and "genFileProcessor opn" es w
       rule: walk_walkEntries.induct)
  case (1 path e w)
  show ?case
    by (auto split: run.splits dest: genFileProcessor_nil)
next
  case (2 path w)
  show ?case
    by (auto simp: genFileProcessor_info split: run.splits dest: genFileProcessor_nil)
next
  case (3 path e w)
  show ?case
    by (auto simp: genFileProcessor_info split: run.splits dest: genFileProcessor_nil)
next
  case (4 path entries w)
  then show ?case
    by (auto simp: genFileProcessor_info split: run.splits dest: genFileProcessor_nil)
next
  case (5 w)
  show ?case by simp
next
  case (6 fname t rest w)
  show ?case
  proof (cases t)
    case (NoEntry e)
    with 6 show ?thesis
      by (auto simp: processAll_append split: run.splits dest: genFileProcessor_nil)
  next
    case File
    with 6 show ?thesis
      by (auto simp: processAll_append split: run.splits dest: processAll_nil)
  next
    case (UnreadableDir e)
    with 6 show ?thesis
      by (auto simp: processAll_append split: run.splits dest: processAll_nil)
  next
    case (Dir es)
    with 6 show ?thesis
      by (auto simp: processAll_append split: run.splits dest: processAll_nil)
  qed
qed

lemma Walk_processAll:
  "Walk lst root (genFileProcessor opn) w = processAll opn (visits root (lst root)) w"
proof -
  have "Walk lst root (genFileProcessor opn) w =
          (case walk (genFileProcessor opn) root (lst root) w of
             Exit w' \<Rightarrow> Exit w'
           | Ret err w' \<Rightarrow> if err = Some SkipDir then Ret None w' else Ret err w')"
    by (cases "lst root") (simp_all add: Walk_def)
  also have "\<dots> = processAll opn (visits root (lst root)) w"
    by (auto simp: walk_processAll split: run.splits dest: processAll_nil)
  finally show ?thesis .
qed

lemma processAll_returns:
  "processAll opn vs w = Ret x w' \<Longrightarrow>
   (\<exists>rs. results w' = results w @ rs \<and>
         map Return rs = map (getFileStats opn) (goFiles vs)) \<and>
   logged w' = logged w @ map trace vs"
proof (induction vs arbitrary: w)
  case Nil
  then show ?case by (simp add: goFiles_def)
next
  case (Cons v vs)
  obtain p err where v: "v = (p, err)" by (cases v)
  from Cons.prems v obtain x1 w1 where
    step: "genFileProcessor opn p None err w = Ret x1 w1" and
    rest: "processAll opn vs w1 = Ret x w'"
    by (auto split: run.splits)
  from Cons.IH [OF rest] obtain rs where
    rs: "results w' = results w1 @ rs" "map Return rs = map (getFileStats opn) (goFiles vs)"
    and lg: "logged w' = logged w1 @ map trace vs" by blast
  note g = genFileProcessor_returns [OF step]
  show ?case
  proof (cases "err = None \<and> HasSuffix p ''.go''")
    case True
    with g(2) obtain r where r: "getFileStats opn p = Return r" "results w1 = results w @ [r]"
      by blast
    with rs True v have "results w' = results w @ (r # rs) \<and>
        map Return (r # rs) = map (getFileStats opn) (goFiles (v # vs))"
      by (simp add: goFiles_def)
    with lg g(1) v show ?thesis by auto
  next
    case False
    with g(3) have "results w1 = results w" by blast
    with rs False v have "results w' = results w @ rs \<and>
        map Return rs = map (getFileStats opn) (goFiles (v # vs))"
      by (auto simp: goFiles_def)
    with lg g(1) v show ?thesis by auto
  qed
qed

text \<open>Traversal errors apart, a walk returns nil as soon as every Go file it meets scans.\<close>

lemma processAll_completes:
  "\<forall>p \<in> set (goFiles vs). \<exists>r. getFileStats opn p = Return r \<Longrightarrow>
   \<exists>w'. processAll opn vs w = Ret None w'"
proof (induction vs arbitrary: w)
  case Nil
  then show ?case by simp
next
  case (Cons v vs)
  obtain p err where v: "v = (p, err)" by (cases v)
  from Cons.prems v have "\<exists>w1. genFileProcessor opn p None err w = Ret None w1"
    by (cases err) (auto simp: genFileProcessor_def Let_def goFiles_def)
  then obtain w1 where step: "genFileProcessor opn p None err w = Ret None w1" ..
  from Cons.prems have "\<forall>p \<in> set (goFiles vs). \<exists>r. getFileStats opn p = Return r"
    by (auto simp: goFiles_def)
  from Cons.IH [OF this] obtain w' where "processAll opn vs w1 = Ret None w'" ..
  with step v show ?case by simp
qed

text \<open>
  C8: in a walk that returns, the records sent on the channel are those of the visited
  paths that end with \<^verbatim>\<open>.go\<close> (and come without an error), one for each and in the
  order of the walk; every visit leaves one entry in the log, and for a path that does not
  end with \<^verbatim>\<open>.go\<close> this entry is the DEBUG trace \<^verbatim>\<open>ignoring\<close>.
\<close>

theorem Walk_emits_go_files:
  assumes "Walk lst root (genFileProcessor opn) w = Ret x w'"
  shows "(\<exists>rs. results w' = results w @ rs \<and>
               map Return rs = map (getFileStats opn) (goFiles (visits root (lst root)))) \<and>
         logged w' = logged w @ map trace (visits root (lst root)) \<and>
         (\<forall>v \<in> set (visits root (lst root)). \<not> HasSuffix (fst v) ''.go'' \<longrightarrow>
            trace v = (DEBUG, [S ''ignoring'', S (fst v)]))"
  using assms processAll_returns [of opn "visits root (lst root)" w x w']
  by (simp add: Walk_processAll trace_def)

lemma Walk_sample:
  "Walk (lstat sampleFS) ''proj'' (genFileProcessor sampleOpen) \<lparr>results = [], logged = []\<rparr> =
     Ret None
       \<lparr>results =
          [\<lparr>filename = ''proj/a.go'', codeLines = 3, commentLines = 0, whitespaceLines = 1\<rparr>,
           \<lparr>filename = ''proj/z.go'', codeLines = 0, commentLines = 2, whitespaceLines = 0\<rparr>],
        logged =
          [(DEBUG, [S ''ignoring'', S ''proj'']),
           (DEBUG, [S ''fileProcessor'', S ''proj/a.go'']),
           (DEBUG, [S ''ignoring'', S ''proj/locked'']),
           (DEBUG, [S ''ignoring'', S ''proj/readme.txt'']),
           (DEBUG, [S ''fileProcessor'', S ''proj/z.go''])]\<rparr>"
  by code_simp

theorem Walk_emits_go_files_witness:
  "Walk (lstat sampleFS) ''proj'' (genFileProcessor sampleOpen) \<lparr>results = [], logged = []\<rparr> =
     Ret None
       \<lparr>results =
          [\<lparr>filename = ''proj/a.go'', codeLines = 3, commentLines = 0, whitespaceLines = 1\<rparr>,
           \<lparr>filename = ''proj/z.go'', codeLines = 0, commentLines = 2, whitespaceLines = 0\<rparr>],
        logged =
          [(DEBUG, [S ''ignoring'', S ''proj'']),
           (DEBUG, [S ''fileProcessor'', S ''proj/a.go'']),
           (DEBUG, [S ''ignoring'', S ''proj/locked'']),
           (DEBUG, [S ''ignoring'', S ''proj/readme.txt'']),
           (DEBUG, [S ''fileProcessor'', S ''proj/z.go''])]\<rparr> \<and>
   map (getFileStats sampleOpen) (goFiles (visits ''proj'' (lstat sampleFS ''proj''))) =
     [Return \<lparr>filename = ''proj/a.go'', codeLines = 3, commentLines = 0, whitespaceLines = 1\<rparr>,
      Return \<lparr>filename = ''proj/z.go'', codeLines = 0, commentLines = 2, whitespaceLines = 0\<rparr>] \<and>
   map trace (visits ''proj'' (lstat sampleFS ''proj'')) =
     [(DEBUG, [S ''ignoring'', S ''proj'']),
      (DEBUG, [S ''fileProcessor'', S ''proj/a.go'']),
      (DEBUG, [S ''ignoring'', S ''proj/locked'']),
      (DEBUG, [S ''ignoring'', S ''proj/readme.txt'']),
      (DEBUG, [S ''fileProcessor'', S ''proj/z.go''])]"
  using Walk_emits_go_files [OF Walk_sample] Walk_sample
  by auto







text \<open>
  The whole program on the directory \<^verbatim>\<open>proj\<close>: the table has the rows of the two Go
  files, and the footer their sums; the text file and the unreadable subdirectory
  leave DEBUG entries in the log only.
\<close>

lemma main_sample:
  "main ''INFO'' [''proj''] sampleFS =
     Ret (\<lparr>header = [''FILENAME'', ''White Space'', ''Comment'', ''Code''],
           footer = [''TOTAL'', ''1'', ''2'', ''3''],
           rows = [[''proj/a.go'', ''1'', ''0'', ''3''], [''proj/z.go'', ''0'', ''2'', ''0'']]\<rparr>,
          [(INFO, [S ''%+v\<newline>'',
                   R \<lparr>filename = ''proj/a.go'', codeLines = 3, commentLines = 0,
                      whitespaceLines = 1\<rparr>]),
           (INFO, [S ''%+v\<newline>'',
                   R \<lparr>filename = ''proj/z.go'', codeLines = 0, commentLines = 2,
                      whitespaceLines = 0\<rparr>])])
       \<lparr>results =
          [\<lparr>filename = ''proj/a.go'', codeLines = 3, commentLines = 0, whitespaceLines = 1\<rparr>,
           \<lparr>filename = ''proj/z.go'', codeLines = 0, commentLines = 2, whitespaceLines = 0\<rparr>],
        logged =
          [(NOTICE, [S ''notice'']), (WARNING, [S ''warning'']),
           (ERROR, [S ''err'']), (CRITICAL, [S ''crit'']),
           (DEBUG, [S ''processing'', S ''proj'']),
           (DEBUG, [S ''ignoring'', S ''proj'']),
           (DEBUG, [S ''fileProcessor'', S ''proj/a.go'']),
           (DEBUG, [S ''ignoring'', S ''proj/locked'']),
           (DEBUG, [S ''ignoring'', S ''proj/readme.txt'']),
           (DEBUG, [S ''fileProcessor'', S ''proj/z.go''])]\<rparr>"
  by code_simp

text \<open>An invalid level ends the process before anything is scanned.\<close>

lemma main_invalid_level:
  "loggingLevels flag = None \<Longrightarrow> \<exists>w. main flag files fs = Exit w"
  by (simp add: main_def)

section \<open>Properties of processResults\<close>

lemma foldl_join:
  "codeLines (foldl join tot rs) = codeLines tot + sum_list (map codeLines rs)"
  "commentLines (foldl join tot rs) = commentLines tot + sum_list (map commentLines rs)"
  "whitespaceLines (foldl join tot rs) = whitespaceLines tot + sum_list (map whitespaceLines rs)"
  "filename (foldl join tot rs) = filename tot"
  by (induction rs arbitrary: tot) (simp_all add: join_def add.assoc)

lemma rangeResults_eq:
  "rangeResults rs (tot, data, lg) =
     (foldl join tot rs, data @ map row rs, lg @ map (\<lambda>res. (INFO, [S ''%+v\<newline>'', R res])) rs)"
  by (induction rs arbitrary: tot data lg) simp_all

lemma sum_list_mset: "sum_list (map f rs) = sum_mset (image_mset f (mset rs))"
  for f :: "fileLines \<Rightarrow> goint"
  by (induction rs) (simp_all add: add.commute)

lemma rangeResults_sums:
  "rangeResults received
     (\<lparr>filename = ''TOTAL'', codeLines = 0, commentLines = 0, whitespaceLines = 0\<rparr>, [], []) =
   (\<lparr>filename = ''TOTAL'',
     codeLines = sum_mset (image_mset codeLines (mset received)),
     commentLines = sum_mset (image_mset commentLines (mset received)),
     whitespaceLines = sum_mset (image_mset whitespaceLines (mset received))\<rparr>,
    map row received,
    map (\<lambda>res. (INFO, [S ''%+v\<newline>'', R res])) received)"
  by (simp add: rangeResults_eq foldl_join sum_list_mset [symmetric])

text \<open>
  C5: after the loop over the received records, each counter of \<^verbatim>\<open>total\<close> is the sum
  (in Go's integers) of that counter over the multiset of the received records, so in
  whatever order they arrived; \<^verbatim>\<open>data\<close> has one row for each received record, in the
  order of arrival, and the table shows these rows and the sums in its footer.
\<close>

theorem processResults_total:
  "rangeResults received
     (\<lparr>filename = ''TOTAL'', codeLines = 0, commentLines = 0, whitespaceLines = 0\<rparr>, [], []) =
   (\<lparr>filename = ''TOTAL'',
     codeLines = sum_mset (image_mset codeLines (mset received)),
     commentLines = sum_mset (image_mset commentLines (mset received)),
     whitespaceLines = sum_mset (image_mset whitespaceLines (mset received))\<rparr>,
    map row received,
    map (\<lambda>res. (INFO, [S ''%+v\<newline>'', R res])) received) \<and>
   fst (processResults received) =
     \<lparr>header = [''FILENAME'', ''White Space'', ''Comment'', ''Code''],
      footer = [''TOTAL'',
                Itoa (sum_mset (image_mset whitespaceLines (mset received))),
                Itoa (sum_mset (image_mset commentLines (mset received))),
                Itoa (sum_mset (image_mset codeLines (mset received)))],
      rows = map row received\<rparr>"
  by (simp add: processResults_def rangeResults_sums)

text \<open>Two arrival orders of the same records give the same totals.\<close>

lemma processResults_any_order:
  "mset received = mset received' \<Longrightarrow>
   footer (fst (processResults received)) = footer (fst (processResults received'))"
  by (simp add: processResults_def rangeResults_sums)

lemma Itoa_samples:
  "Itoa 0 = ''0''" "Itoa 1 = ''1''" "Itoa 2 = ''2''" "Itoa 3 = ''3''" "Itoa 6 = ''6''"
  "Itoa (- 15) = ''-15''"
  by code_simp+

theorem processResults_total_witness:
  "fst (processResults
     [\<lparr>filename = ''proj/a.go'', codeLines = 3, commentLines = 0, whitespaceLines = 1\<rparr>,
      \<lparr>filename = ''proj/z.go'', codeLines = 0, commentLines = 2, whitespaceLines = 0\<rparr>,
      \<lparr>filename = ''proj/a.go'', codeLines = 3, commentLines = 0, whitespaceLines = 1\<rparr>]) =
     \<lparr>header = [''FILENAME'', ''White Space'', ''Comment'', ''Code''],
      footer = [''TOTAL'', ''2'', ''2'', ''6''],
      rows = [[''proj/a.go'', ''1'', ''0'', ''3''], [''proj/z.go'', ''0'', ''2'', ''0''],
              [''proj/a.go'', ''1'', ''0'', ''3'']]\<rparr>"
  using processResults_total
    [of "[\<lparr>filename = ''proj/a.go'', codeLines = 3, commentLines = 0, whitespaceLines = 1\<rparr>,
          \<lparr>filename = ''proj/z.go'', codeLines = 0, commentLines = 2, whitespaceLines = 0\<rparr>,
          \<lparr>filename = ''proj/a.go'', codeLines = 3, commentLines = 0, whitespaceLines = 1\<rparr>]"]
  by (simp add: row_def Itoa_samples)

end
